theory Spec2Isabelle
  imports Main
begin

section \<open>Values, errors and strings\<close>

text \<open>
  A JavaScript string is modelled as a HOL \<open>string\<close>, read as the list of its code
  units; the model covers the code units below 256. Console and terminal output
  (\<open>console.log\<close>, \<open>process.stdout.write\<close>) is not part of the model.
\<close>

text \<open>
  What a \<open>throw\<close> (or a rejected promise) carries: an instance of \<open>Error\<close> with its
  message, or any other value, for which \<open>err instanceof Error\<close> is false.
\<close>

datatype thrown = Error string | NonError string

text \<open>The values an operation may resolve with; \<open>Object\<close> carries a typed payload.\<close>

datatype 'o js_value =
    Undefined
  | Null
  | Boolean bool
  | Number int
  | NaN
  | String string
  | Object 'o

text \<open>JavaScript truthiness, as tested by \<open>!result\<close>.\<close>

fun truthy :: "'o js_value \<Rightarrow> bool" where
  "truthy Undefined = False"
| "truthy Null = False"
| "truthy (Boolean b) = b"
| "truthy (Number n) = (n \<noteq> 0)"
| "truthy NaN = False"
| "truthy (String s) = (s \<noteq> [])"
| "truthy (Object _) = True"

text \<open>\<open>s.startsWith(t)\<close> and \<open>s.includes(t)\<close>.\<close>

fun startsWith :: "string \<Rightarrow> string \<Rightarrow> bool" where
  "startsWith s [] = True"
| "startsWith [] (y # ys) = False"
| "startsWith (x # xs) (y # ys) = (x = y \<and> startsWith xs ys)"

fun string_includes :: "string \<Rightarrow> string \<Rightarrow> bool" where
  "string_includes [] t = (t = [])"
| "string_includes (c # cs) t = (startsWith (c # cs) t \<or> string_includes cs t)"

text \<open>
  \<open>String.prototype.trim\<close> removes white space and line terminators from both ends.
  Below code unit 256 these are TAB, LF, VT, FF, CR, SPACE and NO-BREAK SPACE.
\<close>

definition isWhiteSpace :: "char \<Rightarrow> bool" where
  "isWhiteSpace c = (of_char c \<in> {9, 10, 11, 12, 13, 32, 160 :: nat})"

definition trim :: "string \<Rightarrow> string" where
  "trim s = rev (dropWhile isWhiteSpace (rev (dropWhile isWhiteSpace s)))"

section \<open>Environment resolver (\<open>readEnvVariable\<close>)\<close>

text \<open>
  \<open>process.env\<close> and \<open>import.meta.env\<close> are maps from names to strings; a missing
  name reads as \<open>undefined\<close>, here \<open>None\<close>. The tests \<open>if (process.env[systemVar])\<close>
  and \<open>if (import.meta.env[viteVar])\<close> are truthiness tests: \<open>undefined\<close> and the
  empty string both fail them.
\<close>

type_synonym env_vars = "string \<rightharpoonup> string"

definition present :: "string option \<Rightarrow> bool" where
  "present v = (case v of None \<Rightarrow> False | Some s \<Rightarrow> s \<noteq> [])"

definition missingMessage :: "string \<Rightarrow> string \<Rightarrow> string" where
  "missingMessage systemVar viteVar =
     ''Missing required environment variable: '' @ [CHR 0x27] @ systemVar @ [CHR 0x27] @
     '' or '' @ [CHR 0x27] @ viteVar @ [CHR 0x27] @ ''.'' @
     '' Please set it in your system environment or in your .env file.''"

definition readEnvVariable ::
  "env_vars \<Rightarrow> env_vars \<Rightarrow> string \<Rightarrow> string \<Rightarrow> bool \<Rightarrow> thrown + string option" where
  "readEnvVariable process_env import_meta_env systemVar viteVar isRequired =
     (if present (process_env systemVar) then Inr (process_env systemVar)
      else if present (import_meta_env viteVar) then Inr (import_meta_env viteVar)
      else if isRequired then Inl (Error (missingMessage systemVar viteVar))
      else Inr None)"

section \<open>Storage paths (\<open>buildStoragePath\<close>)\<close>

text \<open>
  \<open>str.replace(/\/+/g, '/')\<close>: the scan goes left to right; at a slash the pattern takes
  the longest run of slashes and one slash is written for it; any other character is
  copied.
\<close>

function replace_slashes :: "string \<Rightarrow> string" where
  "replace_slashes [] = []"
| "replace_slashes (c # cs) =
     (if c = CHR ''/'' then CHR ''/'' # replace_slashes (dropWhile (\<lambda>x. x = CHR ''/'') cs)
      else c # replace_slashes cs)"
  by pat_completeness auto
termination
  by (relation "measure length") (auto simp: length_dropWhile_le less_Suc_eq_le)

definition buildStoragePath :: "string \<Rightarrow> string \<Rightarrow> string \<Rightarrow> thrown + string" where
  "buildStoragePath userId modelId filename =
     (let cleanUserId = trim userId;
          cleanModelId = trim modelId;
          cleanFilename = trim filename
      in if cleanUserId = [] \<or> cleanModelId = [] \<or> cleanFilename = []
         then Inl (Error ''Invalid path components'')
         else Inr (replace_slashes
                 (cleanUserId @ ''/models/'' @ cleanModelId @ ''/'' @ cleanFilename)))"

text \<open>
  The wording of the specification, "every run of repeated slashes collapsed to a single
  slash": a slash that is followed by another slash is deleted.
\<close>

fun collapse_runs :: "string \<Rightarrow> string" where
  "collapse_runs (a # b # cs) =
     (if a = CHR ''/'' \<and> b = CHR ''/'' then collapse_runs (b # cs)
      else a # collapse_runs (b # cs))"
| "collapse_runs cs = cs"

text \<open>No two slashes stand next to each other.\<close>

fun no_double_slash :: "string \<Rightarrow> bool" where
  "no_double_slash (a # b # cs) =
     (\<not> (a = CHR ''/'' \<and> b = CHR ''/'') \<and> no_double_slash (b # cs))"
| "no_double_slash cs = True"

section \<open>Resilient client wrapper\<close>

subsection \<open>The world outside the module\<close>

text \<open>
  A readiness probe is the query \<open>supabase.from('profiles').select('id').limit(1)\<close>.
  Awaiting it either yields an object \<open>{data, error}\<close>, of which only \<open>error\<close> is read
  (\<open>null\<close> is \<open>None\<close>), or throws.
\<close>

datatype probe_outcome = Answered "string option" | Failed thrown

text \<open>\<open>if (!error)\<close> inside the \<open>try\<close>; a throw lands in the \<open>catch\<close>.\<close>

fun probe_succeeded :: "probe_outcome \<Rightarrow> bool" where
  "probe_succeeded (Answered error) = (error = None)"
| "probe_succeeded (Failed err) = False"

text \<open>
  One invocation of an operation, as seen by
  \<open>Promise.race([operation(), timeoutPromise])\<close>: it resolves, it rejects (or throws),
  or it is still pending when the 10 second timer fires.
\<close>

datatype 'a attempt = Resolves 'a | Rejects thrown | Pending

text \<open>
  The argument \<open>operation\<close> of one call of \<open>withRetry\<close>: what its \<open>k\<close>-th invocation
  within that call does (\<open>k\<close> from 0), so that an operation may behave differently from
  one attempt to the next.
\<close>

type_synonym 'o operation = "nat \<Rightarrow> 'o js_value attempt"

text \<open>
  The result object \<open>{data, error}\<close> of \<open>storage.from(BUCKET_NAME).upload(...)\<close>;
  \<open>data\<close> holds \<open>data.path\<close>.
\<close>

record upload_response =
  data :: "string option"
  error :: "thrown option"

record blob =
  blob_size :: nat
  blob_type :: string

text \<open>
  What the module cannot decide: the outcome and the latency in milliseconds of the
  \<open>n\<close>-th readiness probe, the whole milliseconds of \<open>Math.random() * baseDelay\<close> drawn
  at an attempt, and what the \<open>k\<close>-th upload call for a path and a body does.
\<close>

record world =
  readiness :: "nat \<Rightarrow> probe_outcome \<times> nat"
  jitter :: "int \<Rightarrow> int"
  storage_upload :: "string \<Rightarrow> blob \<Rightarrow> nat \<Rightarrow> upload_response attempt"

text \<open>
  The module's variable \<open>isConnected\<close>, with three counters that observe the effects:
  the readiness probes issued so far (the index of the next one), the invocations of
  operations made by \<open>withRetry\<close>, and the milliseconds spent in back-off sleeps.
\<close>

record module_state =
  isConnected :: bool
  probes :: nat
  invocations :: nat
  waited :: nat

definition initial_state :: module_state where
  "initial_state = \<lparr>isConnected = False, probes = 0, invocations = 0, waited = 0\<rparr>"

subsection \<open>\<open>waitForConnection\<close>\<close>

text \<open>
  Modelled from the spec: \<open>sleep\<close> of \<open>utils/async\<close> is not among the sources; it
  resumes after the given number of milliseconds and does not fail.

  \<open>elapsed\<close> is \<open>Date.now() - start\<close>: the time goes by in the two \<open>await\<close>s of the
  loop body, the probe and \<open>sleep(1000)\<close>.
\<close>

function wait_loop :: "world \<Rightarrow> int \<Rightarrow> nat \<Rightarrow> module_state \<Rightarrow> bool \<times> module_state" where
  "wait_loop w timeout elapsed s =
     (if int elapsed < timeout then
        (if probe_succeeded (fst (readiness w (probes s)))
         then (True, s\<lparr>probes := probes s + 1, isConnected := True\<rparr>)
         else wait_loop w timeout (elapsed + snd (readiness w (probes s)) + 1000)
                (s\<lparr>probes := probes s + 1\<rparr>))
      else (False, s))"
  by pat_completeness auto
termination
  by (relation "measure (\<lambda>(w, timeout, elapsed, s). nat (timeout - int elapsed))") auto

declare wait_loop.simps [simp del]

definition waitForConnection :: "world \<Rightarrow> int \<Rightarrow> module_state \<Rightarrow> bool \<times> module_state" where
  "waitForConnection w timeout s = wait_loop w timeout 0 s"

text \<open>
  The value of \<open>elapsed\<close> at which the \<open>k\<close>-th probe of a call is due (\<open>k\<close> from 0),
  when the first probe of the call has index \<open>p\<close> and every earlier probe of the call
  has failed: each failed probe costs its latency and the sleep of 1000 ms.
\<close>

fun started_at :: "world \<Rightarrow> nat \<Rightarrow> nat \<Rightarrow> nat" where
  "started_at w p 0 = 0"
| "started_at w p (Suc k) = snd (readiness w p) + 1000 + started_at w (Suc p) k"

text \<open>
  The value of \<open>elapsed\<close> at which the answer to that probe arrives: its start plus its
  latency.
\<close>

definition answered_at :: "world \<Rightarrow> nat \<Rightarrow> nat \<Rightarrow> nat" where
  "answered_at w p k = started_at w p k + snd (readiness w (p + k))"

subsection \<open>\<open>withRetry\<close>\<close>

text \<open>
  The numbers \<open>timeout\<close>, \<open>maxRetries\<close>, \<open>baseDelay\<close> and \<open>attempt\<close> are integers in
  the model. The loop of \<open>withRetry\<close> makes one invocation per attempt, so the attempt
  numbered \<open>attempt\<close> (from 1) is the invocation numbered \<open>attempt - 1\<close> (from 0).
\<close>

definition isRetryableError :: "thrown \<Rightarrow> bool" where
  "isRetryableError err =
     (case err of
        Error message \<Rightarrow>
          string_includes message ''Failed to fetch'' \<or>
          string_includes message ''NetworkError'' \<or>
          string_includes message ''network timeout'' \<or>
          string_includes message ''Request timeout'' \<or>
          string_includes message ''Connection refused''
      | NonError _ \<Rightarrow> False)"

text \<open>The \<open>try\<close> block of one attempt: the race, then the test of the result.\<close>

fun race :: "'a attempt \<Rightarrow> thrown + 'a" where
  "race (Resolves v) = Inr v"
| "race (Rejects err) = Inl err"
| "race Pending = Inl (Error ''Request timeout'')"

definition try_operation :: "'o js_value attempt \<Rightarrow> thrown + 'o js_value" where
  "try_operation a =
     (case race a of
        Inl err \<Rightarrow> Inl err
      | Inr result \<Rightarrow>
          if \<not> truthy result then Inl (Error ''Operation returned no data'')
          else Inr result)"

text \<open>
  \<open>Math.min(baseDelay * Math.pow(2, attempt - 1) + Math.random() * baseDelay, 15000)\<close>
  in whole milliseconds, for \<open>attempt \<ge> 1\<close>.
\<close>

definition backoff_delay :: "world \<Rightarrow> int \<Rightarrow> int \<Rightarrow> int" where
  "backoff_delay w baseDelay attempt =
     min (baseDelay * 2 ^ nat (attempt - 1) + jitter w attempt) 15000"

function retry_loop ::
  "world \<Rightarrow> 'o operation \<Rightarrow> int \<Rightarrow> int \<Rightarrow> int \<Rightarrow> module_state
     \<Rightarrow> (thrown + 'o js_value) \<times> module_state" where
  "retry_loop w operation maxRetries baseDelay attempt s =
     (if attempt \<le> maxRetries then
        (case try_operation (operation (nat (attempt - 1))) of
           Inr result \<Rightarrow> (Inr result, s\<lparr>invocations := invocations s + 1\<rparr>)
         | Inl err \<Rightarrow>
             if isRetryableError err then
               if attempt = maxRetries
               then (Inl err, s\<lparr>invocations := invocations s + 1\<rparr>)
               else retry_loop w operation maxRetries baseDelay (attempt + 1)
                      (s\<lparr>invocations := invocations s + 1,
                         waited := waited s + nat (backoff_delay w baseDelay attempt)\<rparr>)
             else (Inl err, s\<lparr>invocations := invocations s + 1\<rparr>))
      else (Inl (Error ''Operation failed after multiple retries''), s))"
  by pat_completeness auto
termination
  by (relation "measure (\<lambda>(w, operation, maxRetries, baseDelay, attempt, s).
        nat (maxRetries + 1 - attempt))") auto

declare retry_loop.simps [simp del]

definition withRetry ::
  "world \<Rightarrow> 'o operation \<Rightarrow> int \<Rightarrow> int \<Rightarrow> module_state
     \<Rightarrow> (thrown + 'o js_value) \<times> module_state" where
  "withRetry w operation maxRetries baseDelay s =
     retry_loop w operation maxRetries baseDelay 1
       (if \<not> isConnected s then snd (waitForConnection w 5000 s) else s)"

subsection \<open>\<open>checkConnection\<close>\<close>

text \<open>
  The query on \<open>spaces\<close> is given by its outcome; the function reads and writes no
  variable of the module.
\<close>

fun checkConnection :: "probe_outcome \<Rightarrow> bool" where
  "checkConnection (Answered e) = (e = None)"
| "checkConnection (Failed err) = False"

section \<open>Storage access (\<open>uploadFile\<close>)\<close>

definition MAX_FILE_SIZE :: nat where
  "MAX_FILE_SIZE = 500 * 1024 * 1024"

datatype content = Text string | Blob blob

text \<open>
  \<open>new Blob([content], {type: 'text/plain'})\<close> holds the UTF-8 encoding of the string:
  one byte for a code unit below 128, two bytes for the others below 256.
\<close>

definition utf8_length :: "string \<Rightarrow> nat" where
  "utf8_length s = sum_list (map (\<lambda>c. if of_char c < (128 :: nat) then 1 else 2) s)"

fun fileContent :: "content \<Rightarrow> blob" where
  "fileContent (Text s) = \<lparr>blob_size = utf8_length s, blob_type = ''text/plain''\<rparr>"
| "fileContent (Blob b) = b"

fun upload_operation :: "upload_response attempt \<Rightarrow> upload_response js_value attempt" where
  "upload_operation (Resolves r) = Resolves (Object r)"
| "upload_operation (Rejects err) = Rejects err"
| "upload_operation Pending = Pending"

text \<open>
  \<open>if (error) throw error; return data.path\<close>. Reading \<open>path\<close> of a \<open>null\<close> \<open>data\<close>, or
  destructuring a result that is no object, is a \<open>TypeError\<close> of the engine.
\<close>

definition TypeError :: thrown where
  "TypeError =
     Error (''Cannot read properties of null (reading '' @ [CHR 0x27] @ ''path'' @
            [CHR 0x27] @ '')'')"

fun upload_result :: "thrown + upload_response js_value \<Rightarrow> thrown + string" where
  "upload_result (Inl err) = Inl err"
| "upload_result (Inr (Object r)) =
     (case error r of
        Some err \<Rightarrow> Inl err
      | None \<Rightarrow> (case data r of Some path \<Rightarrow> Inr path | None \<Rightarrow> Inl TypeError))"
| "upload_result (Inr _) = Inl TypeError"

definition uploadFile ::
  "world \<Rightarrow> string \<Rightarrow> string \<Rightarrow> string \<Rightarrow> content \<Rightarrow> module_state
     \<Rightarrow> (thrown + string) \<times> module_state" where
  "uploadFile w userId modelId filename content s =
     (case buildStoragePath userId modelId filename of
        Inl err \<Rightarrow> (Inl err, s)
      | Inr storagePath \<Rightarrow>
          if blob_size (fileContent content) > MAX_FILE_SIZE
          then (Inl (Error ''File size exceeds maximum limit of 500MB''), s)
          else (case withRetry w
                       (\<lambda>k. upload_operation
                              (storage_upload w storagePath (fileContent content) k))
                       5 1000 s of
                  (r, s') \<Rightarrow> (upload_result r, s')))"

section \<open>Calls into the module\<close>

datatype 'o call =
    WaitForConnection int
  | WithRetry "'o operation" int int
  | CheckConnection probe_outcome
  | UploadFile string string string content

fun perform :: "world \<Rightarrow> 'o call \<Rightarrow> module_state \<Rightarrow> module_state" where
  "perform w (WaitForConnection timeout) s = snd (waitForConnection w timeout s)"
| "perform w (WithRetry operation maxRetries baseDelay) s =
     snd (withRetry w operation maxRetries baseDelay s)"
| "perform w (CheckConnection outcome) s = s"
| "perform w (UploadFile userId modelId filename content) s =
     snd (uploadFile w userId modelId filename content s)"

fun perform_all :: "world \<Rightarrow> 'o call list \<Rightarrow> module_state \<Rightarrow> module_state" where
  "perform_all w [] s = s"
| "perform_all w (c # cs) s = perform_all w cs (perform w c s)"

section \<open>The file hook: merging into the current tree\<close>

text \<open>
  Modelled from the spec: the type \<open>FileNode\<close> of \<open>types/repository\<close> is not among the
  sources; its fields are those of the data model,
  \<open>{name, type, path, content?, size?, lastModified?, children?}\<close>.
\<close>

datatype node_type = File | Directory

datatype FileNode =
  FileNode (name: string) (type: node_type) (path: string) (content: "string option")
    (size_bytes: "nat option") (lastModified: "string option")
    (children: "FileNode list option")

text \<open>A flat file record \<open>{path, content}\<close>.\<close>

type_synonym flat_file = "string \<times> string"

text \<open>\<open>f => ({path: f.path, content: f.content || ''})\<close>\<close>

definition flat_record :: "FileNode \<Rightarrow> flat_file" where
  "flat_record f = (path f, (case content f of None \<Rightarrow> [] | Some c \<Rightarrow> if c = [] then [] else c))"

text \<open>
  The updaters handed to \<open>setFiles\<close> by \<open>addFile\<close> and by \<open>uploadFiles\<close>.
  \<open>buildFileTree\<close> of \<open>utils/repository\<close> is not among the sources and is a parameter.
\<close>

definition addFile_records :: "string \<Rightarrow> string \<Rightarrow> FileNode list \<Rightarrow> flat_file list" where
  "addFile_records filename new_content current =
     map flat_record current @ [(filename, new_content)]"

definition addFile_merge ::
  "(flat_file list \<Rightarrow> FileNode list) \<Rightarrow> string \<Rightarrow> string \<Rightarrow> FileNode list \<Rightarrow> FileNode list" where
  "addFile_merge buildFileTree filename new_content current =
     buildFileTree (addFile_records filename new_content current)"

definition uploadFiles_records :: "flat_file list \<Rightarrow> FileNode list \<Rightarrow> flat_file list" where
  "uploadFiles_records results current =
     (let currentFiles = map flat_record current;
          newFiles = map (\<lambda>(path, content). (path, content)) results
      in currentFiles @ newFiles)"

definition uploadFiles_merge ::
  "(flat_file list \<Rightarrow> FileNode list) \<Rightarrow> flat_file list \<Rightarrow> FileNode list \<Rightarrow> FileNode list" where
  "uploadFiles_merge buildFileTree results current =
     buildFileTree (uploadFiles_records results current)"

text \<open>A node with its children replaced.\<close>

definition with_children :: "FileNode list option \<Rightarrow> FileNode \<Rightarrow> FileNode" where
  "with_children cs f =
     FileNode (name f) (type f) (path f) (content f) (size_bytes f) (lastModified f) cs"

section \<open>Worlds and sessions to evaluate the model on\<close>

text \<open>A backend that answers the first readiness probe at once.\<close>

definition quiet_world :: world where
  "quiet_world =
     \<lparr>readiness = (\<lambda>n. (Answered None, 0)),
      jitter = (\<lambda>a. 0),
      storage_upload = (\<lambda>p b k. Pending)\<rparr>"

text \<open>
  A backend whose first readiness probe throws after 200 ms, whose second is answered
  with an error after 300 ms, and that is ready from the third probe on.
\<close>

definition slow_start_world :: world where
  "slow_start_world =
     \<lparr>readiness = (\<lambda>n. if n = 0 then (Failed (Error ''Failed to fetch''), 200)
                         else if n = 1 then (Answered (Some ''unavailable''), 300)
                         else (Answered None, 100)),
      jitter = (\<lambda>a. 250),
      storage_upload = (\<lambda>p b k. Pending)\<rparr>"

text \<open>A backend that answers every readiness probe without error, after 1500 ms.\<close>

definition late_world :: world where
  "late_world =
     \<lparr>readiness = (\<lambda>n. (Answered None, 1500)),
      jitter = (\<lambda>a. 0),
      storage_upload = (\<lambda>p b k. Pending)\<rparr>"

text \<open>
  The flag went from false to true between two states only if a readiness probe issued
  in between succeeded.
\<close>

definition connected_by_probe :: "world \<Rightarrow> module_state \<Rightarrow> module_state \<Rightarrow> bool" where
  "connected_by_probe w s s' =
     (\<exists>k. probes s \<le> k \<and> k < probes s' \<and> probe_succeeded (fst (readiness w k)))"

definition example_session :: "unit call list" where
  "example_session =
     [CheckConnection (Failed (Error ''Failed to fetch'')),
      WaitForConnection 1000,
      WithRetry (\<lambda>k. Rejects (Error ''permission denied'')) 5 1000,
      UploadFile ''u1'' ''m1'' ''notes.txt'' (Text ''hello''),
      WaitForConnection 0]"

text \<open>A tree with one directory that holds one file, and one file at the top.\<close>

definition example_tree :: "FileNode list" where
  "example_tree =
     [FileNode ''src'' Directory ''src'' None None None
        (Some [FileNode ''a.txt'' File ''src/a.txt'' (Some ''x'') (Some 1) None None]),
      FileNode ''LICENSE'' File ''LICENSE'' (Some ''MIT'') (Some 3) None None]"

section \<open>Properties of the environment resolver\<close>

lemma present_iff: "present v \<longleftrightarrow> (\<exists>s. v = Some s \<and> s \<noteq> [])"
  by (cases v) (simp_all add: present_def)

text \<open>
  C9. A variable that is bound to the empty string is treated as if it were absent, for
  the system name and for the \<open>VITE_\<close> name alike: the result is that of the same call
  with the binding removed, so the value falls through to the next source. With both
  bound to the empty string a required variable raises the missing-variable error, and
  no call ever returns the empty string.
\<close>

theorem readEnvVariable_empty_is_absent:
  "readEnvVariable (process_env(systemVar \<mapsto> [])) import_meta_env systemVar viteVar isRequired
     = readEnvVariable (process_env(systemVar := None)) import_meta_env systemVar viteVar isRequired
   \<and> readEnvVariable process_env (import_meta_env(viteVar \<mapsto> [])) systemVar viteVar isRequired
     = readEnvVariable process_env (import_meta_env(viteVar := None)) systemVar viteVar isRequired
   \<and> readEnvVariable (process_env(systemVar \<mapsto> [])) (import_meta_env(viteVar \<mapsto> []))
         systemVar viteVar True
     = Inl (Error (missingMessage systemVar viteVar))
   \<and> readEnvVariable (process_env(systemVar \<mapsto> [])) (import_meta_env(viteVar \<mapsto> c # cs))
         systemVar viteVar isRequired
     = Inr (Some (c # cs))
   \<and> readEnvVariable process_env import_meta_env systemVar viteVar isRequired \<noteq> Inr (Some [])"
  by (auto simp: readEnvVariable_def present_def split: option.splits)

section \<open>Properties of the storage paths\<close>

lemma set_trim_subset: "set (trim s) \<subseteq> set s"
  by (auto simp: trim_def dest!: set_dropWhileD)

lemma dropWhile_all_or_hd:
  "(\<forall>x \<in> set (dropWhile P xs). P x) \<longleftrightarrow> dropWhile P xs = []"
proof
  assume a: "\<forall>x \<in> set (dropWhile P xs). P x"
  show "dropWhile P xs = []"
  proof (rule ccontr)
    assume n: "dropWhile P xs \<noteq> []"
    then have "\<not> P (hd (dropWhile P xs))" by (rule hd_dropWhile)
    moreover have "hd (dropWhile P xs) \<in> set (dropWhile P xs)" using n by simp
    ultimately show False using a by blast
  qed
next
  assume e: "dropWhile P xs = []"
  show "\<forall>x \<in> set (dropWhile P xs). P x" unfolding e by simp
qed

lemma trim_Nil_iff: "trim s = [] \<longleftrightarrow> (\<forall>c \<in> set s. isWhiteSpace c)"
proof -
  have "trim s = [] \<longleftrightarrow> (\<forall>x \<in> set (dropWhile isWhiteSpace s). isWhiteSpace x)"
    by (simp add: trim_def)
  also have "\<dots> \<longleftrightarrow> dropWhile isWhiteSpace s = []"
    by (rule dropWhile_all_or_hd)
  also have "\<dots> \<longleftrightarrow> (\<forall>c \<in> set s. isWhiteSpace c)"
    by simp
  finally show ?thesis .
qed

lemma trim_decompose:
  "\<exists>l r. s = l @ trim s @ r \<and> (\<forall>c \<in> set l. isWhiteSpace c) \<and> (\<forall>c \<in> set r. isWhiteSpace c)"
proof -
  let ?m = "dropWhile isWhiteSpace s"
  let ?l = "takeWhile isWhiteSpace s"
  let ?r = "rev (takeWhile isWhiteSpace (rev ?m))"
  have "rev ?m = takeWhile isWhiteSpace (rev ?m) @ dropWhile isWhiteSpace (rev ?m)"
    by simp
  then have "?m = rev (dropWhile isWhiteSpace (rev ?m)) @ ?r"
    by (metis rev_append rev_rev_ident)
  then have "s = ?l @ trim s @ ?r"
    by (metis takeWhile_dropWhile_id trim_def)
  moreover have "\<forall>c \<in> set ?l. isWhiteSpace c"
    by (auto dest: set_takeWhileD)
  moreover have "\<forall>c \<in> set ?r. isWhiteSpace c"
    by (auto dest: set_takeWhileD)
  ultimately show ?thesis by blast
qed

lemma trim_ends:
  assumes "trim s \<noteq> []"
  shows "\<not> isWhiteSpace (hd (trim s))" and "\<not> isWhiteSpace (last (trim s))"
proof -
  let ?m = "dropWhile isWhiteSpace s"
  let ?d = "dropWhile isWhiteSpace (rev ?m)"
  from assms have d: "?d \<noteq> []" by (simp add: trim_def)
  then have "\<not> isWhiteSpace (hd ?d)" by (rule hd_dropWhile)
  then show "\<not> isWhiteSpace (last (trim s))"
    using d by (simp add: trim_def last_rev)
  from d have m: "?m \<noteq> []" by (metis dropWhile.simps(1) rev.simps(1))
  then have hm: "\<not> isWhiteSpace (hd ?m)" by (rule hd_dropWhile)
  have "rev ?m = takeWhile isWhiteSpace (rev ?m) @ ?d" by simp
  then have "?m = rev ?d @ rev (takeWhile isWhiteSpace (rev ?m))"
    by (metis rev_append rev_rev_ident)
  moreover have "rev ?d \<noteq> []" using d by simp
  ultimately have "hd ?m = hd (rev ?d)" by (metis hd_append2)
  with hm show "\<not> isWhiteSpace (hd (trim s))" by (simp add: trim_def)
qed

lemma replace_slashes_collapse: "replace_slashes s = collapse_runs s"
proof (induction s rule: collapse_runs.induct)
  case (1 a b cs)
  then show ?case by (cases "a = CHR ''/''"; cases "b = CHR ''/''") auto
qed simp_all

lemma collapse_runs_slash_free: "CHR ''/'' \<notin> set a \<Longrightarrow> collapse_runs a = a"
  by (induction a rule: collapse_runs.induct) auto

lemma collapse_runs_separator:
  "CHR ''/'' \<notin> set a \<Longrightarrow> b \<noteq> [] \<Longrightarrow> hd b \<noteq> CHR ''/'' \<Longrightarrow>
     collapse_runs (a @ CHR ''/'' # b) = a @ CHR ''/'' # collapse_runs b"
proof (induction a rule: collapse_runs.induct)
  case (1 x y cs)
  then show ?case by auto
qed (cases b; auto)+


lemma collapse_runs_keeps_head: "\<exists>r. collapse_runs (b # cs) = b # r"
  by (induction cs arbitrary: b) auto

lemma collapse_runs_no_double: "no_double_slash (collapse_runs s)"
proof (induction s rule: collapse_runs.induct)
  case (1 a b cs)
  obtain r where r: "collapse_runs (b # cs) = b # r"
    using collapse_runs_keeps_head by blast
  with 1 show ?case by auto
qed simp_all

lemma split_at_first_slash:
  "CHR ''/'' \<notin> set a \<Longrightarrow> CHR ''/'' \<notin> set b \<Longrightarrow> a @ CHR ''/'' # x = b @ CHR ''/'' # y \<Longrightarrow>
     a = b \<and> x = y"
proof (induction a arbitrary: b)
  case Nil
  then show ?case by (cases b) auto
next
  case (Cons c a)
  then show ?case by (cases b) auto
qed

lemma buildStoragePath_eq:
  "buildStoragePath userId modelId filename =
     (if trim userId = [] \<or> trim modelId = [] \<or> trim filename = []
      then Inl (Error ''Invalid path components'')
      else Inr (collapse_runs
              (trim userId @ ''/models/'' @ trim modelId @ ''/'' @ trim filename)))"
  by (simp add: buildStoragePath_def Let_def replace_slashes_collapse)

text \<open>
  C4. \<open>buildStoragePath\<close> trims the three inputs. It throws the validation error
  exactly when one of them is empty after trimming. Otherwise it returns
  \<open>{userId}/models/{modelId}/{filename}\<close>, built from the trimmed components, with
  every run of repeated slashes collapsed to a single slash; the returned path has no two
  slashes next to each other.
\<close>

theorem buildStoragePath_spec:
  "buildStoragePath userId modelId filename =
     (if trim userId = [] \<or> trim modelId = [] \<or> trim filename = []
      then Inl (Error ''Invalid path components'')
      else Inr (collapse_runs
              (trim userId @ ''/models/'' @ trim modelId @ ''/'' @ trim filename)))
   \<and> ((\<exists>err. buildStoragePath userId modelId filename = Inl err)
        \<longleftrightarrow> trim userId = [] \<or> trim modelId = [] \<or> trim filename = [])
   \<and> (case buildStoragePath userId modelId filename of
         Inl err \<Rightarrow> err = Error ''Invalid path components''
       | Inr p \<Rightarrow> no_double_slash p)"
  by (simp add: buildStoragePath_eq collapse_runs_no_double)

lemma slash_free_path:
  assumes "u \<noteq> []" "m \<noteq> []" "f \<noteq> []"
    and "CHR ''/'' \<notin> set u" "CHR ''/'' \<notin> set m" "CHR ''/'' \<notin> set f"
  shows "collapse_runs (u @ ''/models/'' @ m @ ''/'' @ f) = u @ ''/models/'' @ m @ ''/'' @ f"
proof -
  have hm: "hd (m @ CHR ''/'' # f) \<noteq> CHR ''/''"
    using assms(2,5) by (cases m) auto
  have hf: "hd f \<noteq> CHR ''/''"
    using assms(3,6) by (cases f) auto
  have 1: "collapse_runs (m @ CHR ''/'' # f) = m @ CHR ''/'' # f"
    using assms(3,5,6) hf by (simp add: collapse_runs_separator collapse_runs_slash_free)
  have 2: "collapse_runs (''models'' @ CHR ''/'' # (m @ CHR ''/'' # f))
             = ''models'' @ CHR ''/'' # collapse_runs (m @ CHR ''/'' # f)"
    using hm by (intro collapse_runs_separator) auto
  have 3: "collapse_runs (u @ CHR ''/'' # (''models'' @ CHR ''/'' # (m @ CHR ''/'' # f)))
             = u @ CHR ''/'' # collapse_runs (''models'' @ CHR ''/'' # (m @ CHR ''/'' # f))"
    using assms(4) by (intro collapse_runs_separator) auto
  show ?thesis using 1 2 3 by simp
qed

lemma path_components_unique:
  assumes "CHR ''/'' \<notin> set u1" "CHR ''/'' \<notin> set m1" "CHR ''/'' \<notin> set u2" "CHR ''/'' \<notin> set m2"
    and eq: "u1 @ ''/models/'' @ m1 @ ''/'' @ f1 = u2 @ ''/models/'' @ m2 @ ''/'' @ f2"
  shows "u1 = u2 \<and> m1 = m2 \<and> f1 = f2"
proof -
  from eq have "u1 @ CHR ''/'' # (''models/'' @ m1 @ ''/'' @ f1)
                  = u2 @ CHR ''/'' # (''models/'' @ m2 @ ''/'' @ f2)" by simp
  with assms(1,3) have u: "u1 = u2" and r: "''models/'' @ m1 @ ''/'' @ f1 = ''models/'' @ m2 @ ''/'' @ f2"
    using split_at_first_slash by blast+
  from r have "m1 @ CHR ''/'' # f1 = m2 @ CHR ''/'' # f2" by simp
  with assms(2,4) have "m1 = m2 \<and> f1 = f2"
    using split_at_first_slash by blast
  with u show ?thesis by simp
qed

text \<open>
  C5, as amended. For inputs that are non-empty after trimming and contain no slash,
  \<open>buildStoragePath\<close> returns the three trimmed components joined as they are, and two
  such triples give the same path exactly when their trimmed components agree: the
  function is injective up to the white space around each component, hence injective on
  components that carry none.
\<close>

theorem buildStoragePath_injective_up_to_trim:
  assumes "trim u1 \<noteq> []" "trim m1 \<noteq> []" "trim f1 \<noteq> []"
    and "trim u2 \<noteq> []" "trim m2 \<noteq> []" "trim f2 \<noteq> []"
    and "CHR ''/'' \<notin> set u1" "CHR ''/'' \<notin> set m1" "CHR ''/'' \<notin> set f1"
    and "CHR ''/'' \<notin> set u2" "CHR ''/'' \<notin> set m2" "CHR ''/'' \<notin> set f2"
  shows "buildStoragePath u1 m1 f1 = Inr (trim u1 @ ''/models/'' @ trim m1 @ ''/'' @ trim f1)
    \<and> (buildStoragePath u1 m1 f1 = buildStoragePath u2 m2 f2
         \<longleftrightarrow> trim u1 = trim u2 \<and> trim m1 = trim m2 \<and> trim f1 = trim f2)"
proof -
  have sf: "\<And>s. CHR ''/'' \<notin> set s \<Longrightarrow> CHR ''/'' \<notin> set (trim s)"
    using set_trim_subset by blast
  have c1: "collapse_runs (trim u1 @ ''/models/'' @ trim m1 @ ''/'' @ trim f1)
              = trim u1 @ ''/models/'' @ trim m1 @ ''/'' @ trim f1"
    using assms(1-3,7-9) sf by (intro slash_free_path) auto
  have c2: "collapse_runs (trim u2 @ ''/models/'' @ trim m2 @ ''/'' @ trim f2)
              = trim u2 @ ''/models/'' @ trim m2 @ ''/'' @ trim f2"
    using assms(4-6,10-12) sf by (intro slash_free_path) auto
  have p1: "buildStoragePath u1 m1 f1 = Inr (trim u1 @ ''/models/'' @ trim m1 @ ''/'' @ trim f1)"
    using assms(1-3) unfolding buildStoragePath_eq c1 by simp
  have p2: "buildStoragePath u2 m2 f2 = Inr (trim u2 @ ''/models/'' @ trim m2 @ ''/'' @ trim f2)"
    using assms(4-6) unfolding buildStoragePath_eq c2 by simp
  have "trim u1 = trim u2 \<and> trim m1 = trim m2 \<and> trim f1 = trim f2"
    if "buildStoragePath u1 m1 f1 = buildStoragePath u2 m2 f2"
  proof (rule path_components_unique)
    show "trim u1 @ ''/models/'' @ trim m1 @ ''/'' @ trim f1
            = trim u2 @ ''/models/'' @ trim m2 @ ''/'' @ trim f2"
      using that p1 p2 by simp
  qed (use assms sf in auto)
  moreover have "buildStoragePath u1 m1 f1 = buildStoragePath u2 m2 f2"
    if "trim u1 = trim u2 \<and> trim m1 = trim m2 \<and> trim f1 = trim f2"
    using that p1 p2 by simp
  ultimately show ?thesis using p1 by blast
qed

theorem buildStoragePath_injective_up_to_trim_witness:
  "trim '' a'' \<noteq> [] \<and> trim ''m'' \<noteq> [] \<and> trim ''f'' \<noteq> [] \<and> trim ''b'' \<noteq> []
   \<and> CHR ''/'' \<notin> set '' a'' \<and> CHR ''/'' \<notin> set ''m'' \<and> CHR ''/'' \<notin> set ''f''
   \<and> CHR ''/'' \<notin> set ''b''
   \<and> buildStoragePath '' a'' ''m'' ''f'' = Inr ''a/models/m/f''
   \<and> buildStoragePath '' a'' ''m'' ''f'' \<noteq> buildStoragePath ''b'' ''m'' ''f''"
proof -
  have h: "trim '' a'' \<noteq> []" "trim ''m'' \<noteq> []" "trim ''f'' \<noteq> []" "trim ''b'' \<noteq> []"
    "CHR ''/'' \<notin> set '' a''" "CHR ''/'' \<notin> set ''m''" "CHR ''/'' \<notin> set ''f''"
    "CHR ''/'' \<notin> set ''b''"
    by (simp_all add: trim_def isWhiteSpace_def)
  have t: "trim '' a'' = ''a''" "trim ''b'' = ''b''" "trim ''m'' = ''m''" "trim ''f'' = ''f''"
    by (simp_all add: trim_def isWhiteSpace_def)
  show ?thesis
    using h buildStoragePath_injective_up_to_trim
            [of "'' a''" "''m''" "''f''" "''b''" "''m''" "''f''"]
    by (auto simp: t)
qed

text \<open>
  C5 as stated fails: two distinct triples, each component non-empty after trimming and
  free of slashes, with the same path.
\<close>

theorem buildStoragePath_not_injective:
  "trim '' a'' \<noteq> [] \<and> trim ''a'' \<noteq> [] \<and> trim ''m'' \<noteq> [] \<and> trim ''f'' \<noteq> []
   \<and> CHR ''/'' \<notin> set '' a'' \<and> CHR ''/'' \<notin> set ''a'' \<and> CHR ''/'' \<notin> set ''m''
   \<and> CHR ''/'' \<notin> set ''f''
   \<and> ('' a'', ''m'', ''f'') \<noteq> (''a'', ''m'', ''f'')
   \<and> buildStoragePath '' a'' ''m'' ''f'' = buildStoragePath ''a'' ''m'' ''f''"
  by (simp add: buildStoragePath_def trim_def isWhiteSpace_def)

section \<open>Properties of \<open>waitForConnection\<close>\<close>

lemma wait_loop_spec:
  "\<exists>n. (\<forall>k<n. int (e + started_at w (probes s) k) < timeout
              \<and> \<not> probe_succeeded (fst (readiness w (probes s + k))))
     \<and> (if int (e + started_at w (probes s) n) < timeout
        then probe_succeeded (fst (readiness w (probes s + n)))
           \<and> wait_loop w timeout e s = (True, s\<lparr>probes := probes s + n + 1, isConnected := True\<rparr>)
        else wait_loop w timeout e s = (False, s\<lparr>probes := probes s + n\<rparr>))"
proof (induction w timeout e s rule: wait_loop.induct)
  case (1 w timeout elapsed s)
  let ?p = "probes s"
  show ?case
  proof (cases "int elapsed < timeout")
    case False
    then have "wait_loop w timeout elapsed s = (False, s)"
      by (simp add: wait_loop.simps)
    with False show ?thesis
      by (intro exI[of _ 0]) simp
  next
    case inside: True
    show ?thesis
    proof (cases "probe_succeeded (fst (readiness w ?p))")
      case True
      with inside have "wait_loop w timeout elapsed s = (True, s\<lparr>probes := ?p + 1, isConnected := True\<rparr>)"
        by (simp add: wait_loop.simps)
      with inside True show ?thesis
        by (intro exI[of _ 0]) simp
    next
      case False
      let ?e' = "elapsed + snd (readiness w ?p) + 1000"
      let ?s' = "s\<lparr>probes := ?p + 1\<rparr>"
      from inside False have step: "wait_loop w timeout elapsed s = wait_loop w timeout ?e' ?s'"
        by (subst wait_loop.simps) simp
      from "1.IH"[OF inside False] obtain n where
        before: "\<forall>k<n. int (?e' + started_at w (probes ?s') k) < timeout
              \<and> \<not> probe_succeeded (fst (readiness w (probes ?s' + k)))"
        and last: "if int (?e' + started_at w (probes ?s') n) < timeout
          then probe_succeeded (fst (readiness w (probes ?s' + n)))
             \<and> wait_loop w timeout ?e' ?s' = (True, ?s'\<lparr>probes := probes ?s' + n + 1, isConnected := True\<rparr>)
          else wait_loop w timeout ?e' ?s' = (False, ?s'\<lparr>probes := probes ?s' + n\<rparr>)"
        by blast
      have "\<forall>k<Suc n. int (elapsed + started_at w ?p k) < timeout
              \<and> \<not> probe_succeeded (fst (readiness w (?p + k)))"
      proof (intro allI impI)
        fix k assume "k < Suc n"
        show "int (elapsed + started_at w ?p k) < timeout
              \<and> \<not> probe_succeeded (fst (readiness w (?p + k)))"
        proof (cases k)
          case 0
          with inside False show ?thesis by simp
        next
          case (Suc j)
          with \<open>k < Suc n\<close> before have "int (?e' + started_at w (Suc ?p) j) < timeout
              \<and> \<not> probe_succeeded (fst (readiness w (Suc ?p + j)))"
            by simp
          with Suc show ?thesis by (simp add: add.assoc add.commute add.left_commute)
        qed
      qed
      moreover have "if int (elapsed + started_at w ?p (Suc n)) < timeout
        then probe_succeeded (fst (readiness w (?p + Suc n)))
           \<and> wait_loop w timeout elapsed s = (True, s\<lparr>probes := ?p + Suc n + 1, isConnected := True\<rparr>)
        else wait_loop w timeout elapsed s = (False, s\<lparr>probes := ?p + Suc n\<rparr>)"
        using last step by (simp add: add.assoc add.commute add.left_commute split: if_splits)
      ultimately show ?thesis by blast
    qed
  qed
qed

text \<open>
  C8, as amended. Every readiness probe settling after its latency, \<open>waitForConnection\<close>
  returns a boolean for every timeout and never throws: a probe that throws is caught,
  and the loop ends because every failed probe moves \<open>elapsed\<close> on by its latency and
  the sleep of 1000 ms. The timeout is tested at the head of the loop only, before a
  probe is started. There is a number \<open>n\<close> of failed probes, each started inside the
  timeout window. If the next probe is still started inside the window, it succeeds, and
  the call returns true at once with the flag set, also when the answer arrives after the
  window is over; otherwise the timeout has elapsed at the head of the loop, every probe
  issued has failed, and the call returns false with the flag untouched. Consecutive
  probes start 1000 ms plus the latency of the failed probe apart.
\<close>

theorem waitForConnection_spec:
  "\<exists>n. (\<forall>k<n. int (started_at w (probes s) k) < timeout
              \<and> \<not> probe_succeeded (fst (readiness w (probes s + k))))
     \<and> (if int (started_at w (probes s) n) < timeout
        then probe_succeeded (fst (readiness w (probes s + n)))
           \<and> waitForConnection w timeout s
               = (True, s\<lparr>probes := probes s + n + 1, isConnected := True\<rparr>)
        else waitForConnection w timeout s = (False, s\<lparr>probes := probes s + n\<rparr>))"
  using wait_loop_spec [of 0 w s timeout] unfolding waitForConnection_def add_0 .

lemma slow_start_readiness:
  "readiness slow_start_world 0 = (Failed (Error ''Failed to fetch''), 200)"
  "readiness slow_start_world (Suc 0) = (Answered (Some ''unavailable''), 300)"
  "readiness slow_start_world (Suc (Suc k)) = (Answered None, 100)"
  by (simp_all add: slow_start_world_def)

theorem waitForConnection_spec_witness:
  "waitForConnection slow_start_world 5000 initial_state
     = (True, initial_state\<lparr>probes := 3, isConnected := True\<rparr>)
   \<and> waitForConnection slow_start_world 1000 initial_state
     = (False, initial_state\<lparr>probes := 1\<rparr>)"
proof -
  have p0: "probes initial_state = 0" by (simp add: initial_state_def)
  have first: "waitForConnection slow_start_world 5000 initial_state
     = (True, initial_state\<lparr>probes := 3, isConnected := True\<rparr>)"
  proof -
    from waitForConnection_spec [of slow_start_world initial_state 5000, unfolded p0 add_0]
    obtain n where
      before: "\<forall>k<n. \<not> probe_succeeded (fst (readiness slow_start_world k))"
      and last: "if int (started_at slow_start_world 0 n) < 5000
        then probe_succeeded (fst (readiness slow_start_world n))
           \<and> waitForConnection slow_start_world 5000 initial_state
               = (True, initial_state\<lparr>probes := n + 1, isConnected := True\<rparr>)
        else waitForConnection slow_start_world 5000 initial_state
               = (False, initial_state\<lparr>probes := n\<rparr>)"
      by blast
    have "\<not> 2 < n"
      using before by (auto simp: slow_start_world_def)
    then consider "n = 0" | "n = 1" | "n = 2" by linarith
    then show ?thesis
    proof cases
      case 1
      with last show ?thesis by (simp add: slow_start_readiness)
    next
      case 2
      with last show ?thesis by (simp add: slow_start_readiness)
    next
      case 3
      with last show ?thesis by (simp add: slow_start_readiness numeral_2_eq_2)
    qed
  qed
  have second: "waitForConnection slow_start_world 1000 initial_state
     = (False, initial_state\<lparr>probes := 1\<rparr>)"
    by (simp add: waitForConnection_def wait_loop.simps initial_state_def slow_start_world_def)
  from first second show ?thesis by simp
qed

text \<open>
  C8 as stated fails: with a timeout of 1000 ms, the first probe is started at 0 and
  answered without error at 1500 ms, after the window is over, and the call returns true
  and sets the flag.
\<close>

theorem waitForConnection_true_after_timeout:
  "started_at late_world (probes initial_state) 0 = 0
   \<and> answered_at late_world (probes initial_state) 0 = 1500
   \<and> (1000 :: int) \<le> int (answered_at late_world (probes initial_state) 0)
   \<and> waitForConnection late_world 1000 initial_state
       = (True, initial_state\<lparr>probes := 1, isConnected := True\<rparr>)"
  by (simp add: waitForConnection_def wait_loop.simps answered_at_def late_world_def
        initial_state_def)

section \<open>Properties of \<open>withRetry\<close>\<close>

lemma waitForConnection_effect:
  "invocations (snd (waitForConnection w timeout s)) = invocations s"
  "waited (snd (waitForConnection w timeout s)) = waited s"
  "probes s \<le> probes (snd (waitForConnection w timeout s))"
  "isConnected s \<Longrightarrow> isConnected (snd (waitForConnection w timeout s))"
  using wait_loop_spec [of 0 w s timeout]
  by (auto simp: waitForConnection_def split: if_splits)

lemma waitForConnection_connects:
  assumes "isConnected (snd (waitForConnection w timeout s))"
  shows "isConnected s \<or> (\<exists>k. probes s \<le> k \<and> k < probes (snd (waitForConnection w timeout s))
            \<and> probe_succeeded (fst (readiness w k)))"
proof -
  from wait_loop_spec [of 0 w s timeout] obtain n where
    "if int (0 + started_at w (probes s) n) < timeout
        then probe_succeeded (fst (readiness w (probes s + n)))
           \<and> wait_loop w timeout 0 s = (True, s\<lparr>probes := probes s + n + 1, isConnected := True\<rparr>)
        else wait_loop w timeout 0 s = (False, s\<lparr>probes := probes s + n\<rparr>)"
    by blast
  then show ?thesis
    using assms
    by (cases "int (0 + started_at w (probes s) n) < timeout")
       (auto simp: waitForConnection_def intro: exI[of _ "probes s + n"])
qed

lemma retry_loop_keeps_connection:
  "isConnected (snd (retry_loop w operation maxRetries baseDelay attempt s)) = isConnected s
   \<and> probes (snd (retry_loop w operation maxRetries baseDelay attempt s)) = probes s"
proof (induction w operation maxRetries baseDelay attempt s rule: retry_loop.induct)
  case (1 w operation maxRetries baseDelay attempt s)
  show ?case
  proof (cases "attempt \<le> maxRetries")
    case False
    then show ?thesis by (simp add: retry_loop.simps)
  next
    case True
    show ?thesis
    proof (cases "try_operation (operation (nat (attempt - 1)))")
      case (Inr result)
      with True show ?thesis by (simp add: retry_loop.simps)
    next
      case (Inl err)
      show ?thesis
      proof (cases "isRetryableError err \<and> attempt \<noteq> maxRetries")
        case False
        with True Inl show ?thesis by (auto simp: retry_loop.simps)
      next
        case again: True
        with \<open>attempt \<le> maxRetries\<close> Inl "1.IH" [of err] show ?thesis
          by (subst (1 2) retry_loop.simps) simp
      qed
    qed
  qed
qed

lemma retry_loop_no_attempt:
  "maxRetries < attempt \<Longrightarrow>
     retry_loop w operation maxRetries baseDelay attempt s
       = (Inl (Error ''Operation failed after multiple retries''), s)"
  by (simp add: retry_loop.simps)

lemma retry_loop_throws_non_retryable:
  "attempt \<le> maxRetries \<Longrightarrow> try_operation (operation (nat (attempt - 1))) = Inl err \<Longrightarrow>
   \<not> isRetryableError err \<Longrightarrow>
     retry_loop w operation maxRetries baseDelay attempt s
       = (Inl err, s\<lparr>invocations := invocations s + 1\<rparr>)"
  by (simp add: retry_loop.simps)

lemma retry_loop_always_retryable:
  "\<forall>k. operation k = Rejects (err k) \<Longrightarrow> \<forall>k. isRetryableError (err k) \<Longrightarrow>
   1 \<le> attempt \<Longrightarrow> attempt \<le> maxRetries \<Longrightarrow>
     fst (retry_loop w operation maxRetries baseDelay attempt s) = Inl (err (nat (maxRetries - 1)))
     \<and> invocations (snd (retry_loop w operation maxRetries baseDelay attempt s))
         = invocations s + nat (maxRetries - attempt + 1)"
proof (induction w operation maxRetries baseDelay attempt s rule: retry_loop.induct)
  case (1 w operation maxRetries baseDelay attempt s)
  note rejects = "1.prems"(1) and retryable = "1.prems"(2)
  have t: "try_operation (operation (nat (attempt - 1))) = Inl (err (nat (attempt - 1)))"
    by (simp add: try_operation_def rejects)
  have r: "isRetryableError (err (nat (attempt - 1)))"
    by (simp add: retryable)
  show ?case
  proof (cases "attempt = maxRetries")
    case True
    with t r show ?thesis by (simp add: retry_loop.simps)
  next
    case False
    with "1.prems" have lt: "attempt + 1 \<le> maxRetries" "1 \<le> attempt + 1" by simp_all
    from "1.IH" [OF "1.prems"(4) t r False rejects retryable lt(2,1)]
    have "fst (retry_loop w operation maxRetries baseDelay (attempt + 1)
                (s\<lparr>invocations := invocations s + 1,
                   waited := waited s + nat (backoff_delay w baseDelay attempt)\<rparr>))
            = Inl (err (nat (maxRetries - 1)))
          \<and> invocations (snd (retry_loop w operation maxRetries baseDelay (attempt + 1)
                (s\<lparr>invocations := invocations s + 1,
                   waited := waited s + nat (backoff_delay w baseDelay attempt)\<rparr>)))
            = invocations s + 1 + nat (maxRetries - (attempt + 1) + 1)"
      by simp
    moreover have "retry_loop w operation maxRetries baseDelay attempt s
          = retry_loop w operation maxRetries baseDelay (attempt + 1)
                (s\<lparr>invocations := invocations s + 1,
                   waited := waited s + nat (backoff_delay w baseDelay attempt)\<rparr>)"
      using "1.prems"(4) False t r by (subst retry_loop.simps) simp
    moreover have "1 + nat (maxRetries - (attempt + 1) + 1) = nat (maxRetries - attempt + 1)"
      using lt by linarith
    ultimately show ?thesis by simp
  qed
qed

lemma includes_Failed_to_fetch_retryable:
  "string_includes message ''Failed to fetch'' \<Longrightarrow> isRetryableError (Error message)"
  by (simp add: isRetryableError_def)

lemma no_data_not_retryable: "\<not> isRetryableError (Error ''Operation returned no data'')"
  by (simp add: isRetryableError_def)

lemma withRetry_start:
  "invocations (if \<not> isConnected s then snd (waitForConnection w 5000 s) else s) = invocations s"
  "waited (if \<not> isConnected s then snd (waitForConnection w 5000 s) else s) = waited s"
  by (simp_all add: waitForConnection_effect)

text \<open>
  C1, as amended. Let every invocation of the operation throw an \<open>Error\<close> whose message
  contains \<open>Failed to fetch\<close>. For \<open>maxRetries \<ge> 1\<close>, \<open>withRetry\<close> invokes the
  operation exactly \<open>maxRetries\<close> times and then throws the error of the final attempt.
  For \<open>maxRetries < 1\<close> the loop body never runs: the operation is not invoked and the
  error thrown is the generic \<open>Operation failed after multiple retries\<close>.
\<close>

theorem withRetry_rethrows_on_final_attempt:
  assumes "\<forall>k. operation k = Rejects (Error (message k))"
    and "\<forall>k. string_includes (message k) ''Failed to fetch''"
  shows "(1 \<le> maxRetries \<longrightarrow>
            fst (withRetry w operation maxRetries baseDelay s)
              = Inl (Error (message (nat (maxRetries - 1))))
          \<and> invocations (snd (withRetry w operation maxRetries baseDelay s))
              = invocations s + nat maxRetries)
       \<and> (maxRetries < 1 \<longrightarrow>
            fst (withRetry w operation maxRetries baseDelay s)
              = Inl (Error ''Operation failed after multiple retries'')
          \<and> invocations (snd (withRetry w operation maxRetries baseDelay s)) = invocations s)"
proof (intro conjI impI)
  let ?s1 = "if \<not> isConnected s then snd (waitForConnection w 5000 s) else s"
  have retryable: "\<forall>k. isRetryableError (Error (message k))"
    using assms(2) by (simp add: includes_Failed_to_fetch_retryable)
  {
    assume m: "1 \<le> maxRetries"
    from retry_loop_always_retryable [of operation "\<lambda>k. Error (message k)" 1 maxRetries w baseDelay ?s1]
    have l: "fst (retry_loop w operation maxRetries baseDelay 1 ?s1)
               = Inl (Error (message (nat (maxRetries - 1))))
          \<and> invocations (snd (retry_loop w operation maxRetries baseDelay 1 ?s1))
               = invocations ?s1 + nat (maxRetries - 1 + 1)"
      using assms(1) retryable m by simp
    from l show "fst (withRetry w operation maxRetries baseDelay s)
              = Inl (Error (message (nat (maxRetries - 1))))"
      by (simp add: withRetry_def)
    from l show "invocations (snd (withRetry w operation maxRetries baseDelay s))
              = invocations s + nat maxRetries"
      by (simp add: withRetry_def withRetry_start)
  }
  {
    assume m: "maxRetries < 1"
    then have l: "retry_loop w operation maxRetries baseDelay 1 ?s1
               = (Inl (Error ''Operation failed after multiple retries''), ?s1)"
      by (intro retry_loop_no_attempt) simp
    from l show "fst (withRetry w operation maxRetries baseDelay s)
              = Inl (Error ''Operation failed after multiple retries'')"
      by (simp add: withRetry_def)
    from l show "invocations (snd (withRetry w operation maxRetries baseDelay s)) = invocations s"
      by (simp add: withRetry_def withRetry_start)
  }
qed

theorem withRetry_rethrows_on_final_attempt_witness:
  "string_includes ''TypeError: Failed to fetch'' ''Failed to fetch''
   \<and> fst (withRetry quiet_world (\<lambda>k. Rejects (Error ''TypeError: Failed to fetch'')
             :: unit js_value attempt) 3 1000 initial_state)
       = Inl (Error ''TypeError: Failed to fetch'')
   \<and> invocations (snd (withRetry quiet_world (\<lambda>k. Rejects (Error ''TypeError: Failed to fetch'')
             :: unit js_value attempt) 3 1000 initial_state)) = 3"
proof -
  have i: "string_includes ''TypeError: Failed to fetch'' ''Failed to fetch''"
    by simp
  have z: "invocations initial_state = 0"
    by (simp add: initial_state_def)
  show ?thesis
    using i z withRetry_rethrows_on_final_attempt
      [of "\<lambda>k. Rejects (Error ''TypeError: Failed to fetch'') :: unit js_value attempt"
          "\<lambda>k. ''TypeError: Failed to fetch''" 3 quiet_world 1000 initial_state]
    by simp
qed

text \<open>
  C1 as stated fails at \<open>maxRetries = 0\<close>: the error thrown is not the one of the
  operation.
\<close>

theorem withRetry_without_attempts:
  "fst (withRetry quiet_world (\<lambda>k. Rejects (Error ''Failed to fetch'') :: unit js_value attempt)
          0 1000 initial_state)
     = Inl (Error ''Operation failed after multiple retries'')
   \<and> fst (withRetry quiet_world (\<lambda>k. Rejects (Error ''Failed to fetch'') :: unit js_value attempt)
          0 1000 initial_state)
     \<noteq> Inl (Error ''Failed to fetch'')"
  by (simp add: withRetry_def retry_loop.simps)

text \<open>
  C2, as amended. Let the first invocation resolve with a falsy result and let
  \<open>maxRetries \<ge> 1\<close>. The attempt throws \<open>Operation returned no data\<close>, whose message
  matches none of the five retryable signatures: \<open>withRetry\<close> invokes the operation
  exactly once and throws that error at once, with no back-off and no further attempt.
\<close>

theorem withRetry_falsy_result_not_retried:
  assumes "operation 0 = Resolves result" and "\<not> truthy result" and "1 \<le> maxRetries"
  shows "fst (withRetry w operation maxRetries baseDelay s)
           = Inl (Error ''Operation returned no data'')
       \<and> invocations (snd (withRetry w operation maxRetries baseDelay s)) = invocations s + 1
       \<and> waited (snd (withRetry w operation maxRetries baseDelay s)) = waited s"
proof -
  let ?s1 = "if \<not> isConnected s then snd (waitForConnection w 5000 s) else s"
  have "try_operation (operation (nat (1 - 1))) = Inl (Error ''Operation returned no data'')"
    using assms(1,2) by (simp add: try_operation_def)
  with assms(3) have "retry_loop w operation maxRetries baseDelay 1 ?s1
      = (Inl (Error ''Operation returned no data''), ?s1\<lparr>invocations := invocations ?s1 + 1\<rparr>)"
    using no_data_not_retryable by (intro retry_loop_throws_non_retryable)
  then show ?thesis
    by (simp add: withRetry_def withRetry_start)
qed

theorem withRetry_falsy_result_not_retried_witness:
  "\<not> truthy (String [] :: unit js_value)
   \<and> fst (withRetry quiet_world (\<lambda>k. Resolves (String [] :: unit js_value)) 5 1000 initial_state)
       = Inl (Error ''Operation returned no data'')
   \<and> invocations (snd (withRetry quiet_world (\<lambda>k. Resolves (String [] :: unit js_value))
         5 1000 initial_state)) = 1
   \<and> waited (snd (withRetry quiet_world (\<lambda>k. Resolves (String [] :: unit js_value))
         5 1000 initial_state)) = 0"
  using withRetry_falsy_result_not_retried
    [of "\<lambda>k. Resolves (String [] :: unit js_value)" "String []" 5 quiet_world 1000 initial_state]
  by (simp add: initial_state_def)

text \<open>
  C2 as stated fails: with five attempts allowed, an operation that resolves with
  \<open>null\<close> is invoked once, nothing is waited, and the error is thrown.
\<close>

theorem withRetry_no_data_thrown_at_once:
  "fst (withRetry quiet_world (\<lambda>k. Resolves (Null :: unit js_value)) 5 1000
          (initial_state\<lparr>isConnected := True\<rparr>))
     = Inl (Error ''Operation returned no data'')
   \<and> invocations (snd (withRetry quiet_world (\<lambda>k. Resolves (Null :: unit js_value)) 5 1000
          (initial_state\<lparr>isConnected := True\<rparr>))) = 1
   \<and> waited (snd (withRetry quiet_world (\<lambda>k. Resolves (Null :: unit js_value)) 5 1000
          (initial_state\<lparr>isConnected := True\<rparr>))) = 0"
  by (simp add: withRetry_def retry_loop.simps try_operation_def isRetryableError_def
        initial_state_def)

text \<open>
  C3, as amended. Let the first invocation throw an \<open>Error\<close> whose message matches none
  of the five retryable signatures, and let \<open>maxRetries \<ge> 1\<close>. Then \<open>withRetry\<close>
  invokes the operation exactly once and throws that error at once, with no back-off and
  no further attempt.
\<close>

theorem withRetry_throws_non_retryable_at_once:
  assumes "operation 0 = Rejects (Error message)"
    and "\<not> isRetryableError (Error message)"
    and "1 \<le> maxRetries"
  shows "fst (withRetry w operation maxRetries baseDelay s) = Inl (Error message)
       \<and> invocations (snd (withRetry w operation maxRetries baseDelay s)) = invocations s + 1
       \<and> waited (snd (withRetry w operation maxRetries baseDelay s)) = waited s"
proof -
  let ?s1 = "if \<not> isConnected s then snd (waitForConnection w 5000 s) else s"
  have "try_operation (operation (nat (1 - 1))) = Inl (Error message)"
    using assms(1) by (simp add: try_operation_def)
  with assms(2,3) have "retry_loop w operation maxRetries baseDelay 1 ?s1
      = (Inl (Error message), ?s1\<lparr>invocations := invocations ?s1 + 1\<rparr>)"
    by (intro retry_loop_throws_non_retryable)
  then show ?thesis
    by (simp add: withRetry_def withRetry_start)
qed

theorem withRetry_throws_non_retryable_at_once_witness:
  "\<not> isRetryableError (Error ''permission denied'')
   \<and> fst (withRetry quiet_world (\<lambda>k. Rejects (Error ''permission denied'')
             :: unit js_value attempt) 5 1000 initial_state)
       = Inl (Error ''permission denied'')
   \<and> invocations (snd (withRetry quiet_world (\<lambda>k. Rejects (Error ''permission denied'')
             :: unit js_value attempt) 5 1000 initial_state)) = 1"
proof -
  have n: "\<not> isRetryableError (Error ''permission denied'')"
    by (simp add: isRetryableError_def)
  show ?thesis
    using n withRetry_throws_non_retryable_at_once
      [of "\<lambda>k. Rejects (Error ''permission denied'') :: unit js_value attempt"
          "''permission denied''" 5 quiet_world 1000 initial_state]
    by (simp add: initial_state_def)
qed

text \<open>
  C3 as stated fails at \<open>maxRetries = 0\<close>: the operation is not invoked at all and the
  error thrown is the generic one.
\<close>

theorem withRetry_non_retryable_never_invoked:
  "fst (withRetry quiet_world (\<lambda>k. Rejects (Error ''permission denied'') :: unit js_value attempt)
          0 1000 initial_state)
     = Inl (Error ''Operation failed after multiple retries'')
   \<and> invocations (snd (withRetry quiet_world
          (\<lambda>k. Rejects (Error ''permission denied'') :: unit js_value attempt)
          0 1000 initial_state)) = invocations initial_state"
  by (simp add: withRetry_def retry_loop.simps withRetry_start)

section \<open>Properties of \<open>uploadFile\<close>\<close>

text \<open>
  C6. For a valid path and a content blob of more than 500 * 1024 * 1024 bytes,
  \<open>uploadFile\<close> throws the size-limit error and leaves the state of the module as it
  was: no operation was invoked and no readiness probe was issued.
\<close>

theorem uploadFile_size_limit_before_any_call:
  assumes "buildStoragePath userId modelId filename = Inr storagePath"
    and "500 * 1024 * 1024 < blob_size (fileContent payload)"
  shows "uploadFile w userId modelId filename payload s
           = (Inl (Error ''File size exceeds maximum limit of 500MB''), s)
       \<and> invocations (snd (uploadFile w userId modelId filename payload s)) = invocations s
       \<and> probes (snd (uploadFile w userId modelId filename payload s)) = probes s"
  using assms by (simp add: uploadFile_def MAX_FILE_SIZE_def)

theorem uploadFile_size_limit_before_any_call_witness:
  "buildStoragePath ''u1'' ''m1'' ''weights.bin'' = Inr ''u1/models/m1/weights.bin''
   \<and> 500 * 1024 * 1024
       < blob_size (fileContent (Blob \<lparr>blob_size = 524288001, blob_type = ''application/octet-stream''\<rparr>))
   \<and> uploadFile slow_start_world ''u1'' ''m1'' ''weights.bin''
         (Blob \<lparr>blob_size = 524288001, blob_type = ''application/octet-stream''\<rparr>) initial_state
       = (Inl (Error ''File size exceeds maximum limit of 500MB''), initial_state)"
proof -
  have p: "buildStoragePath ''u1'' ''m1'' ''weights.bin'' = Inr ''u1/models/m1/weights.bin''"
    by (simp add: buildStoragePath_def trim_def isWhiteSpace_def)
  have b: "500 * 1024 * 1024
       < blob_size (fileContent (Blob \<lparr>blob_size = 524288001, blob_type = ''application/octet-stream''\<rparr>))"
    by simp
  from uploadFile_size_limit_before_any_call [OF p b, of slow_start_world initial_state] p b
  show ?thesis by simp
qed

section \<open>Properties of the connection flag\<close>

lemma withRetry_connection:
  "probes s \<le> probes (snd (withRetry w operation maxRetries baseDelay s))"
  "isConnected s \<Longrightarrow> isConnected (snd (withRetry w operation maxRetries baseDelay s))"
  "isConnected (snd (withRetry w operation maxRetries baseDelay s)) \<Longrightarrow>
     isConnected s \<or> connected_by_probe w s (snd (withRetry w operation maxRetries baseDelay s))"
proof -
  let ?s1 = "if \<not> isConnected s then snd (waitForConnection w 5000 s) else s"
  have k: "isConnected (snd (withRetry w operation maxRetries baseDelay s)) = isConnected ?s1"
    "probes (snd (withRetry w operation maxRetries baseDelay s)) = probes ?s1"
    unfolding withRetry_def using retry_loop_keeps_connection by blast+
  show "probes s \<le> probes (snd (withRetry w operation maxRetries baseDelay s))"
    unfolding k by (simp add: waitForConnection_effect)
  show "isConnected s \<Longrightarrow> isConnected (snd (withRetry w operation maxRetries baseDelay s))"
    unfolding k by simp
  show "isConnected (snd (withRetry w operation maxRetries baseDelay s)) \<Longrightarrow>
     isConnected s \<or> connected_by_probe w s (snd (withRetry w operation maxRetries baseDelay s))"
    unfolding k connected_by_probe_def
    using waitForConnection_connects [of w 5000 s] by (auto split: if_splits)
qed

lemma uploadFile_state:
  "snd (uploadFile w userId modelId filename payload s) = s
   \<or> (\<exists>operation. snd (uploadFile w userId modelId filename payload s)
         = snd (withRetry w (operation :: upload_response operation) 5 1000 s))"
  by (auto simp: uploadFile_def split: sum.splits prod.splits) (metis snd_conv)

lemma perform_connection:
  "probes s \<le> probes (perform w c s)
   \<and> (isConnected s \<longrightarrow> isConnected (perform w c s))
   \<and> (isConnected (perform w c s) \<longrightarrow> isConnected s \<or> connected_by_probe w s (perform w c s))"
proof (cases c)
  case (WaitForConnection timeout)
  then show ?thesis
    using waitForConnection_connects [of w timeout s]
    by (auto simp: waitForConnection_effect connected_by_probe_def)
next
  case (WithRetry operation maxRetries baseDelay)
  then show ?thesis
    using withRetry_connection [where s = s and w = w and operation = operation
        and maxRetries = maxRetries and baseDelay = baseDelay] by auto
next
  case (CheckConnection outcome)
  then show ?thesis by simp
next
  case (UploadFile userId modelId filename payload)
  from uploadFile_state [of w userId modelId filename payload s]
  show ?thesis
  proof
    assume "snd (uploadFile w userId modelId filename payload s) = s"
    with UploadFile show ?thesis by simp
  next
    assume "\<exists>operation. snd (uploadFile w userId modelId filename payload s)
         = snd (withRetry w (operation :: upload_response operation) 5 1000 s)"
    then obtain operation :: "upload_response operation" where
      "snd (uploadFile w userId modelId filename payload s) = snd (withRetry w operation 5 1000 s)"
      by blast
    with UploadFile show ?thesis
      using withRetry_connection [where s = s and w = w and operation = operation
          and maxRetries = 5 and baseDelay = 1000] by auto
  qed
qed

lemma connected_by_probe_mono:
  "connected_by_probe w s1 s2 \<Longrightarrow> probes s0 \<le> probes s1 \<Longrightarrow> probes s2 \<le> probes s3 \<Longrightarrow>
     connected_by_probe w s0 s3"
  unfolding connected_by_probe_def by (meson le_trans less_le_trans)

lemma perform_all_connection:
  "probes s \<le> probes (perform_all w cs s)
   \<and> (isConnected s \<longrightarrow> isConnected (perform_all w cs s))
   \<and> (isConnected (perform_all w cs s)
        \<longrightarrow> isConnected s \<or> connected_by_probe w s (perform_all w cs s))"
proof (induction cs arbitrary: s)
  case Nil
  then show ?case by simp
next
  case (Cons c cs)
  let ?s1 = "perform w c s"
  let ?s2 = "perform_all w cs ?s1"
  note step = perform_connection [where s = s and w = w and c = c] and rest = Cons.IH [where s = ?s1]
  have "probes s \<le> probes ?s2" using step rest by simp
  moreover have "isConnected s \<longrightarrow> isConnected ?s2" using step rest by simp
  moreover have "isConnected s \<or> connected_by_probe w s ?s2" if "isConnected ?s2"
  proof -
    from that rest consider "isConnected ?s1" | "connected_by_probe w ?s1 ?s2" by blast
    then show ?thesis
    proof cases
      case 1
      with step have "isConnected s \<or> connected_by_probe w s ?s1" by simp
      then show ?thesis
        using rest connected_by_probe_mono [where w = w and ?s1.0 = s and ?s2.0 = ?s1 and ?s0.0 = s and ?s3.0 = ?s2] by auto
    next
      case 2
      then show ?thesis
        using step connected_by_probe_mono [where w = w and ?s1.0 = ?s1 and ?s2.0 = ?s2 and ?s0.0 = s and ?s3.0 = ?s2] by auto
    qed
  qed
  ultimately show ?case by simp
qed

text \<open>
  C7. Over any sequence of calls into the module (\<open>waitForConnection\<close>, \<open>withRetry\<close>
  with any operation, \<open>checkConnection\<close>, \<open>uploadFile\<close>), a flag that is true stays
  true; and a flag that is true afterwards was true before or a readiness probe issued
  during the calls succeeded.
\<close>

theorem isConnected_one_way:
  "(isConnected s \<longrightarrow> isConnected (perform_all w calls s))
   \<and> (isConnected (perform_all w calls s)
        \<longrightarrow> isConnected s \<or> connected_by_probe w s (perform_all w calls s))"
  using perform_all_connection [where s = s and w = w and cs = calls] by simp

lemma example_session_connects:
  "isConnected (perform_all slow_start_world example_session initial_state)"
  by (simp add: example_session_def initial_state_def slow_start_world_def
        waitForConnection_def wait_loop.simps withRetry_def retry_loop.simps
        try_operation_def isRetryableError_def uploadFile_def buildStoragePath_def
        trim_def isWhiteSpace_def MAX_FILE_SIZE_def utf8_length_def backoff_delay_def)

theorem isConnected_one_way_witness:
  "\<not> isConnected initial_state
   \<and> isConnected (perform_all slow_start_world example_session initial_state)
   \<and> connected_by_probe slow_start_world initial_state
         (perform_all slow_start_world example_session initial_state)
   \<and> isConnected (perform_all slow_start_world example_session
         (initial_state\<lparr>isConnected := True\<rparr>))"
proof -
  have n: "\<not> isConnected initial_state"
    by (simp add: initial_state_def)
  from isConnected_one_way [of initial_state slow_start_world example_session]
    example_session_connects n
  have "connected_by_probe slow_start_world initial_state
         (perform_all slow_start_world example_session initial_state)"
    by blast
  moreover from isConnected_one_way
    [of "initial_state\<lparr>isConnected := True\<rparr>" slow_start_world example_session]
  have "isConnected (perform_all slow_start_world example_session
         (initial_state\<lparr>isConnected := True\<rparr>))"
    by simp
  ultimately show ?thesis
    using n example_session_connects by simp
qed

section \<open>Properties of the merge step\<close>

lemma flat_record_eq:
  "flat_record f = (path f, case content f of None \<Rightarrow> [] | Some c \<Rightarrow> c)"
  by (simp add: flat_record_def split: option.splits)

lemma flat_record_with_children: "flat_record (with_children cs f) = flat_record f"
  by (simp add: flat_record_def with_children_def)

lemma uploadFiles_records_eq:
  "uploadFiles_records results current = map flat_record current @ results"
  by (simp add: uploadFiles_records_def)

text \<open>
  C10. The merge step of \<open>addFile\<close> and of \<open>uploadFiles\<close> hands \<open>buildFileTree\<close> one
  record per top-level node of the current tree, its path with its content or the empty
  string, followed by the new records. A directory node contributes its own path with
  empty content. The children of the nodes play no part: with any other children the
  records and the rebuilt tree are the same, and a path that is neither the path of a
  top-level node nor that of a new record is not among the records, so the nested files
  are dropped.
\<close>

theorem merge_flattens_top_level_only:
  "addFile_merge buildFileTree filename new_content current
     = buildFileTree (map (\<lambda>f. (path f, case content f of None \<Rightarrow> [] | Some c \<Rightarrow> c)) current
                      @ [(filename, new_content)])
   \<and> uploadFiles_merge buildFileTree results current
     = buildFileTree (map (\<lambda>f. (path f, case content f of None \<Rightarrow> [] | Some c \<Rightarrow> c)) current
                      @ results)
   \<and> flat_record (FileNode n Directory p None sz lm (Some nested)) = (p, [])
   \<and> addFile_records filename new_content (map (with_children cs) current)
     = addFile_records filename new_content current
   \<and> uploadFiles_records results (map (with_children cs) current)
     = uploadFiles_records results current
   \<and> addFile_merge buildFileTree filename new_content (map (with_children cs) current)
     = addFile_merge buildFileTree filename new_content current
   \<and> uploadFiles_merge buildFileTree results (map (with_children cs) current)
     = uploadFiles_merge buildFileTree results current
   \<and> (\<forall>q. q \<notin> path ` set current \<longrightarrow> q \<noteq> filename
          \<longrightarrow> q \<notin> fst ` set (addFile_records filename new_content current))
   \<and> (\<forall>q. q \<notin> path ` set current \<longrightarrow> q \<notin> fst ` set results
          \<longrightarrow> q \<notin> fst ` set (uploadFiles_records results current))"
proof -
  have m: "map flat_record current
             = map (\<lambda>f. (path f, case content f of None \<Rightarrow> [] | Some c \<Rightarrow> c)) current"
    by (simp add: flat_record_eq)
  have c: "map flat_record (map (with_children cs) current) = map flat_record current"
    by (simp add: flat_record_with_children)
  have f: "fst ` set (map flat_record current) = path ` set current"
    by (auto simp: flat_record_eq image_iff)
  show ?thesis
    unfolding addFile_merge_def uploadFiles_merge_def addFile_records_def
      uploadFiles_records_eq c
    using f by (auto simp: m flat_record_eq image_Un)
qed

theorem merge_flattens_top_level_only_witness:
  "''src/a.txt'' \<notin> path ` set example_tree \<and> ''src/a.txt'' \<noteq> ''README.md''
   \<and> ''src/a.txt'' \<notin> fst ` set (addFile_records ''README.md'' ''# hi'' example_tree)
   \<and> addFile_records ''README.md'' ''# hi'' example_tree
       = [(''src'', []), (''LICENSE'', ''MIT''), (''README.md'', ''# hi'')]"
proof -
  have a: "''src/a.txt'' \<notin> path ` set example_tree" "''src/a.txt'' \<noteq> ''README.md''"
    by (simp_all add: example_tree_def)
  have "''src/a.txt'' \<notin> fst ` set (addFile_records ''README.md'' ''# hi'' example_tree)"
    using a merge_flattens_top_level_only
      [where current = example_tree and filename = "''README.md''" and new_content = "''# hi''"]
    by blast
  moreover have "addFile_records ''README.md'' ''# hi'' example_tree
       = [(''src'', []), (''LICENSE'', ''MIT''), (''README.md'', ''# hi'')]"
    by (simp add: addFile_records_def example_tree_def flat_record_def)
  ultimately show ?thesis using a by simp
qed

end
